theory Spec2Isabelle
  imports Main "HOL-Library.Finite_Map"
begin

section \<open>The HeyBoxBot connection and dispatch engine\<close>

text \<open>
  A shallow embedding of the class \<open>HeyBoxBot\<close>: its fields, the heartbeat closure
  \<open>ping\<close> installed by the constructor, \<open>start\<close>, \<open>stop\<close> and the inbound frame
  handler \<open>onWebsocketMsg\<close>. The class is written against three libraries that are not
  part of it: the WebSocket transport, the event bus and the file system. Calls into them
  are recorded, in the order they are made, in one chronological list of effects; the file
  system is a finite map from paths to nodes.

  The JavaScript event loop runs one callback at a time, so every handler is a function
  from the state before the callback to the state after it. A fire-and-forget
  \<open>post(...).then()\<close> is recorded at the place where the call is made. Line numbers
  refer to the source file of the class.

  Outside the model are the listeners that users of the class subscribe, to which the
  fields of the class are private, and of the class itself the two listeners
  \<open>onUserMessage\<close> and \<open>onCommandMessage\<close>, which write a log line and call the
  command manager, and the methods \<open>command\<close>, \<open>subscribe\<close> and \<open>sendMsg\<close>, which
  assign no field.
\<close>

subsection \<open>Values\<close>

text \<open>
  A value in the array that a post resolves to. \<open>start\<close> reads one as the working path:
  the source types it as a string, at run time it is what the array holds at the index
  read, and \<open>undefined\<close> where the array has no element. A listener is taken to return
  a string or nothing.
\<close>

datatype jsval = Undefined | Str string

text \<open>String conversion inside a template literal.\<close>

fun to_string :: "jsval \<Rightarrow> string" where
  "to_string Undefined = ''undefined''"
| "to_string (Str s) = s"

text \<open>
  What \<open>JSON.parse\<close> returns, extended by \<open>JUndefined\<close> for the result of reading a
  property that is not there. An object lists each of its keys once. Numbers are never
  inspected by the class.
\<close>

datatype json =
    JUndefined
  | JNull
  | JBool bool
  | JNum int
  | JStr string
  | JArr "json list"
  | JObj "(string \<times> json) list"

text \<open>
  What can be thrown: the two exceptions of the language that the frame handler meets, an
  exception of a listener on the bus, and the two errors with which \<open>mkdirSync\<close> fails
  when the parent of the directory is missing or is not a directory.
\<close>

datatype error = TypeError | SyntaxError | ListenerError string | ENOENT | ENOTDIR

text \<open>
  Arguments of a \<open>post\<close> call: \<open>this\<close>, the raw frame, a path, a decoded value, or
  a decoded user message inside a \<open>UserImMessageImpl\<close>.

  Modelled from the spec: the class \<open>UserImMessageImpl\<close> is not among the source files.
  By the specification it wraps the decoded message together with the capability to reply
  with the token of the bot, so an instance is determined by the message it wraps, and
  constructing one does not fail.
\<close>

datatype arg =
    This
  | RawData string
  | PathArg string
  | Value json
  | UserImMessageImpl json

datatype level = Debug | Info | Warning | Error

datatype logmsg = Text string | Thrown error

text \<open>
  Every call that leaves the class, in the order made: a post on the bus, the three
  transport calls, a logger call, and a promise rejection that nobody handles.
\<close>

datatype effect =
    Post string "arg list"
  | Send string
  | Terminate
  | Close
  | Log level logmsg
  | Rejected error

datatype node = Dir | File string

type_synonym filesystem = "(string, node) fmap"

subsection \<open>The state of one bot instance\<close>

text \<open>
  The first four fields are the fields of the class. \<open>logger\<close> holds the directory the
  logger was created for and is \<open>None\<close> until \<open>start\<close> assigns it. \<open>heartbeatTimes\<close>
  is a JavaScript number that starts at 0 and is only ever incremented by 1 or set to 0; it
  stays within 0 to 6 (lemma \<open>counter_at_most_six\<close>), where a number is exact.
  \<open>listeners\<close> are
  the topics registered with \<open>eventManager.listen\<close>, \<open>wsMessageHandlers\<close> counts the
  \<open>ws.on('message', ...)\<close> bindings, \<open>timers\<close> the pending \<open>setTimeout(ping, 30000)\<close>
  calls.
\<close>

record bot =
  path :: jsval
  logger :: "string option"
  heartbeatTimes :: nat
  wsOpened :: bool
  listeners :: "string list"
  wsMessageHandlers :: nat
  timers :: nat
  files :: filesystem
  trace :: "effect list"

definition constructor :: "string \<Rightarrow> filesystem \<Rightarrow> bot" where
  "constructor cwd fs =
     \<lparr> path = Str cwd, logger = None, heartbeatTimes = 0, wsOpened = False,
       listeners = [], wsMessageHandlers = 0, timers = 0, files = fs, trace = [] \<rparr>"

definition emit :: "effect \<Rightarrow> bot \<Rightarrow> bot" where
  "emit e b = b\<lparr>trace := trace b @ [e]\<rparr>"

text \<open>\<open>this.logger?.error(m)\<close>: nothing happens while the logger is undefined.\<close>

definition log_opt :: "level \<Rightarrow> logmsg \<Rightarrow> bot \<Rightarrow> bot" where
  "log_opt l m b = (case logger b of None \<Rightarrow> b | Some _ \<Rightarrow> emit (Log l m) b)"

subsection \<open>Heartbeat\<close>

text \<open>The closure \<open>ping\<close> of the open handler (lines 82 to 91).\<close>

definition ping :: "bot \<Rightarrow> bot" where
  "ping b =
     (if heartbeatTimes b > 5 then
        emit Terminate (log_opt Error (Text ''WebSocket connection lost, reconnecting...'') b)
      else
        (emit (Send ''PING'') b)
          \<lparr>heartbeatTimes := heartbeatTimes b + 1, timers := timers b + 1\<rparr>)"

text \<open>The handler of the transport's open signal: set the flag, run the first tick.\<close>

definition on_open :: "bot \<Rightarrow> bot" where
  "on_open b = ping (b\<lparr>wsOpened := True\<rparr>)"

text \<open>A pending timeout fires: it is consumed and \<open>ping\<close> runs.\<close>

definition timer_fire :: "bot \<Rightarrow> bot" where
  "timer_fire b = (if timers b = 0 then b else ping (b\<lparr>timers := timers b - 1\<rparr>))"

text \<open>Counting in the trace.\<close>

definition probes :: "bot \<Rightarrow> nat" where
  "probes b = count_list (trace b) (Send ''PING'')"

definition terminations :: "bot \<Rightarrow> nat" where
  "terminations b = count_list (trace b) Terminate"

subsection \<open>Inbound frames\<close>

text \<open>\<open>msg.startsWith(p)\<close> and \<open>msg.endsWith(p)\<close>.\<close>

definition startsWith :: "string \<Rightarrow> string \<Rightarrow> bool" where
  "startsWith msg p = (take (length p) msg = p)"

definition endsWith :: "string \<Rightarrow> string \<Rightarrow> bool" where
  "endsWith msg p = (length p \<le> length msg \<and> drop (length msg - length p) msg = p)"

text \<open>
  Reading the property \<open>k\<close> of a value, for the property names the handler reads
  (\<open>type\<close>, \<open>data\<close>, \<open>user_info\<close>, \<open>user_base_info\<close>, \<open>sender_info\<close>): on
  \<open>undefined\<close> and \<open>null\<close> the read throws a TypeError, on an object it gives the
  member or \<open>undefined\<close>, on a string, number, boolean or array it gives \<open>undefined\<close>.
\<close>

fun getprop :: "json \<Rightarrow> string \<Rightarrow> error + json" where
  "getprop JUndefined k = Inl TypeError"
| "getprop JNull k = Inl TypeError"
| "getprop (JObj kvs) k = Inr (case map_of kvs k of None \<Rightarrow> JUndefined | Some v \<Rightarrow> v)"
| "getprop v k = Inr JUndefined"

text \<open>
  The body of the \<open>try\<close> block (lines 229 to 239). \<open>parse\<close> stands for
  \<open>JSON.parse\<close>, which returns the decoded value or throws a SyntaxError (\<open>None\<close>).
  The result is the post the block makes, if it makes one, or the exception it throws.
  \<open>bot.post\<close> is an async function, so the call itself never throws into the block.
\<close>

definition try_block :: "(string \<Rightarrow> json option) \<Rightarrow> string \<Rightarrow> error + effect option" where
  "try_block parse msg =
     (case parse msg of
        None \<Rightarrow> Inl SyntaxError
      | Some data \<Rightarrow>
          (case getprop data ''type'' of
             Inl e \<Rightarrow> Inl e
           | Inr ty \<Rightarrow>
               if ty = JStr ''5'' then
                 (case getprop data ''data'' of
                    Inl e \<Rightarrow> Inl e
                  | Inr userMsg \<Rightarrow>
                      (case getprop userMsg ''user_info'' of
                         Inl e \<Rightarrow> Inl e
                       | Inr user_info \<Rightarrow>
                           (case getprop user_info ''user_base_info'' of
                              Inl e \<Rightarrow> Inl e
                            | Inr user \<Rightarrow>
                                Inr (Some (Post ''user-message''
                                  [This, Value user, UserImMessageImpl userMsg])))))
               else if ty = JStr ''50'' then
                 (case getprop data ''data'' of
                    Inl e \<Rightarrow> Inl e
                  | Inr commandMsg \<Rightarrow>
                      (case getprop commandMsg ''sender_info'' of
                         Inl e \<Rightarrow> Inl e
                       | Inr user \<Rightarrow>
                           Inr (Some (Post ''command-message''
                             [This, Value user, Value commandMsg]))))
               else Inr None))"

text \<open>
  \<open>onWebsocketMsg(bot, data)\<close>, with \<open>msg\<close> the frame decoded as UTF-8. The first
  statement is \<open>bot.logger!.debug(msg)\<close>: the non-null assertion is erased at run time,
  so with no logger the call throws a TypeError out of the handler.
\<close>

definition onWebsocketMsg :: "(string \<Rightarrow> json option) \<Rightarrow> bot \<Rightarrow> string \<Rightarrow> error + bot" where
  "onWebsocketMsg parse b msg =
     (case logger b of
        None \<Rightarrow> Inl TypeError
      | Some d \<Rightarrow>
          let b1 = emit (Log Debug (Text msg)) b in
          if msg = ''PONG'' then Inr (b1\<lparr>heartbeatTimes := 0\<rparr>)
          else if startsWith msg ''{'' \<and> endsWith msg ''}'' then
            (case try_block parse msg of
               Inl e \<Rightarrow> Inr (emit (Log Error (Thrown e)) b1)
             | Inr None \<Rightarrow> Inr b1
             | Inr (Some p) \<Rightarrow> Inr (emit p b1))
          else Inr b1)"

text \<open>
  One registered \<open>websocket-message\<close> listener runs. An exception it throws rejects the
  promise of the post, which the message binding does not handle.
\<close>

definition run_listener :: "(string \<Rightarrow> json option) \<Rightarrow> string \<Rightarrow> bot \<Rightarrow> bot" where
  "run_listener parse msg b =
     (case onWebsocketMsg parse b msg of Inl e \<Rightarrow> emit (Rejected e) b | Inr b' \<Rightarrow> b')"

text \<open>
  Modelled from the spec: the delivery of a post to the listeners of its topic is the work
  of the event bus, which is not among the source files. By the specification a post
  runs every listener registered for the topic, one after the other. The listeners
  registered for \<open>websocket-message\<close> by \<open>eventManager.listen\<close> are the
  \<open>onWebsocketMsg\<close> registrations of \<open>start\<close>, one for each time it ran.
\<close>

definition dispatch :: "(string \<Rightarrow> json option) \<Rightarrow> string \<Rightarrow> bot \<Rightarrow> bot" where
  "dispatch parse msg b =
     (run_listener parse msg ^^ count_list (listeners b) ''websocket-message'') b"

text \<open>
  The callback bound by \<open>ws.on('message', ...)\<close> (lines 127 to 130): every frame is
  posted on \<open>websocket-message\<close>.
\<close>

definition ws_on_message :: "(string \<Rightarrow> json option) \<Rightarrow> string \<Rightarrow> bot \<Rightarrow> bot" where
  "ws_on_message parse msg b =
     dispatch parse msg (emit (Post ''websocket-message'' [This, RawData msg]) b)"

text \<open>The transport's message signal: each bound callback runs once.\<close>

definition deliver :: "(string \<Rightarrow> json option) \<Rightarrow> string \<Rightarrow> bot \<Rightarrow> bot" where
  "deliver parse msg b = (ws_on_message parse msg ^^ wsMessageHandlers b) b"

subsection \<open>The file system\<close>

text \<open>
  The calls of \<open>node:fs\<close> that \<open>start\<close> makes, on a finite map from paths to nodes.
  A path names a node by its text, and a relative path is relative to the working
  directory of the process. \<open>mkdirSync\<close> is not recursive: it throws when the parent of
  the new directory does not exist or is a file. The parent of a path with a single
  component is the root or the working directory, which exist. \<open>renameSync\<close> is only
  called on a source that exists and, as on the real file system, replaces whatever the
  target path held. Permissions are not modelled.
\<close>

definition existsSync :: "filesystem \<Rightarrow> string \<Rightarrow> bool" where
  "existsSync fs p = (fmlookup fs p \<noteq> None)"

text \<open>The path without its last component and the slash before it.\<close>

definition dirname :: "string \<Rightarrow> string" where
  "dirname p = rev (drop 1 (dropWhile (\<lambda>c. c \<noteq> CHR ''/'') (rev p)))"

definition mkdirSync :: "string \<Rightarrow> filesystem \<Rightarrow> error + filesystem" where
  "mkdirSync p fs =
     (if dirname p = [] then Inr (fmupd p Dir fs)
      else (case fmlookup fs (dirname p) of
              None \<Rightarrow> Inl ENOENT
            | Some Dir \<Rightarrow> Inr (fmupd p Dir fs)
            | Some (File content) \<Rightarrow> Inl ENOTDIR))"

definition renameSync :: "string \<Rightarrow> string \<Rightarrow> filesystem \<Rightarrow> filesystem" where
  "renameSync old new fs =
     (case fmlookup fs old of None \<Rightarrow> fs | Some n \<Rightarrow> fmupd new n (fmdrop old fs))"

text \<open>The decimal digits of a count inside a template literal.\<close>

definition digit_char :: "nat \<Rightarrow> char" where
  "digit_char n = ''0123456789'' ! n"

fun dec :: "nat \<Rightarrow> string" where
  "dec n = (if n < 10 then [digit_char n] else dec (n div 10) @ [digit_char (n mod 10)])"

declare dec.simps [simp del]

text \<open>
  The two names of lines 113 and 117. \<open>now k\<close> is what
  \<open>dayjs().format('YYYY-MM-DD-HH-mm-ss')\<close> returns when it is evaluated for the
  \<open>k\<close>-th time after the first: the clock is read again in every round of the loop, and
  the round that sets \<open>count\<close> to \<open>k\<close> is the \<open>k\<close>-th.
\<close>

definition plain :: "string \<Rightarrow> (nat \<Rightarrow> string) \<Rightarrow> string" where
  "plain logPath now = logPath @ ''/'' @ now 0 @ ''.log''"

definition suffixed :: "string \<Rightarrow> (nat \<Rightarrow> string) \<Rightarrow> nat \<Rightarrow> string" where
  "suffixed logPath now count = logPath @ ''/'' @ now count @ ''-'' @ dec count @ ''.log''"

text \<open>
  The loop terminates because the file system is finite and no two counts give the same
  suffixed name, whatever the clock returns.
\<close>

lemma digit_char_inj: "a < 10 \<Longrightarrow> b < 10 \<Longrightarrow> digit_char a = digit_char b \<Longrightarrow> a = b"
proof -
  assume a: "a < 10" and b: "b < 10" and e: "digit_char a = digit_char b"
  have d: "distinct ''0123456789''" by simp
  have "a < length ''0123456789''" "b < length ''0123456789''" using a b by simp_all
  with d e show "a = b" unfolding digit_char_def by (simp only: nth_eq_iff_index_eq)
qed

lemma digit_char_not_dash: "n < 10 \<Longrightarrow> digit_char n \<noteq> CHR ''-''"
proof -
  assume "n < 10"
  then have "n < length ''0123456789''" by simp
  then have "digit_char n \<in> set ''0123456789''" unfolding digit_char_def by (rule nth_mem)
  then show ?thesis by auto
qed

lemma dec_not_Nil: "dec n \<noteq> []"
  by (subst dec.simps) simp

lemma dash_notin_dec: "CHR ''-'' \<notin> set (dec n)"
proof (induction n rule: dec.induct)
  case (1 n)
  show ?case
  proof (cases "n < 10")
    case True
    then show ?thesis using digit_char_not_dash [of n] by (subst dec.simps) auto
  next
    case False
    then have "CHR ''-'' \<notin> set (dec (n div 10))" using 1 by simp
    moreover have "digit_char (n mod 10) \<noteq> CHR ''-''" by (rule digit_char_not_dash) simp
    ultimately show ?thesis using False by (subst dec.simps) auto
  qed
qed

lemma dec_inj: "dec m = dec n \<Longrightarrow> m = n"
proof (induction m arbitrary: n rule: dec.induct)
  case (1 m)
  show ?case
  proof (cases "m < 10")
    case m: True
    show ?thesis
    proof (cases "n < 10")
      case True
      with m 1(2) show ?thesis by (simp add: dec.simps [of m] dec.simps [of n] digit_char_inj)
    next
      case False
      then have "dec n = dec (n div 10) @ [digit_char (n mod 10)]" by (subst dec.simps) simp
      moreover have "dec m = [digit_char m]" using m by (subst dec.simps) simp
      ultimately show ?thesis using 1(2) dec_not_Nil [of "n div 10"] by simp
    qed
  next
    case m: False
    then have dm: "dec m = dec (m div 10) @ [digit_char (m mod 10)]" by (subst dec.simps) simp
    show ?thesis
    proof (cases "n < 10")
      case True
      then have "dec n = [digit_char n]" by (subst dec.simps) simp
      with dm 1(2) dec_not_Nil [of "m div 10"] show ?thesis by simp
    next
      case False
      then have dn: "dec n = dec (n div 10) @ [digit_char (n mod 10)]" by (subst dec.simps) simp
      from dm dn 1(2) have q: "dec (m div 10) = dec (n div 10)"
        and r: "digit_char (m mod 10) = digit_char (n mod 10)" by simp_all
      from q have "m div 10 = n div 10" using 1(1) m by simp
      moreover from r have "m mod 10 = n mod 10" by (intro digit_char_inj) simp_all
      ultimately show ?thesis by (metis div_mult_mod_eq)
    qed
  qed
qed

lemma takeWhile_rev_tail:
  assumes "c \<notin> set u"
  shows "takeWhile (\<lambda>x. x \<noteq> c) (rev (a @ c # u)) = rev u"
proof -
  have "takeWhile (\<lambda>x. x \<noteq> c) (rev u @ c # rev a)
        = rev u @ takeWhile (\<lambda>x. x \<noteq> c) (c # rev a)"
    by (rule takeWhile_append2) (use assms in auto)
  then show ?thesis by simp
qed

lemma split_at_last:
  assumes "c \<notin> set u" and "c \<notin> set v" and "a @ c # u = b @ c # v"
  shows "u = v"
proof -
  have "rev u = takeWhile (\<lambda>x. x \<noteq> c) (rev (a @ c # u))"
    by (rule takeWhile_rev_tail [OF assms(1), symmetric])
  also have "\<dots> = takeWhile (\<lambda>x. x \<noteq> c) (rev (b @ c # v))"
    by (simp only: assms(3))
  also have "\<dots> = rev v"
    by (rule takeWhile_rev_tail [OF assms(2)])
  finally show ?thesis by simp
qed

lemma suffixed_inj: "suffixed logPath now j = suffixed logPath now k \<Longrightarrow> j = k"
proof -
  assume "suffixed logPath now j = suffixed logPath now k"
  then have "(now j @ CHR ''-'' # dec j) @ ''.log'' = (now k @ CHR ''-'' # dec k) @ ''.log''"
    by (simp add: suffixed_def)
  then have e: "now j @ CHR ''-'' # dec j = now k @ CHR ''-'' # dec k"
    by (simp only: same_append_eq append_same_eq)
  have "dec j = dec k"
    by (rule split_at_last [OF dash_notin_dec dash_notin_dec e])
  then show ?thesis by (rule dec_inj)
qed

lemma existsSync_iff: "existsSync fs p \<longleftrightarrow> p \<in> fmdom' fs"
  by (simp add: existsSync_def fmlookup_dom'_iff)

lemma finite_taken: "finite {j. existsSync fs (suffixed logPath now j)}"
proof -
  have "{j. existsSync fs (suffixed logPath now j)} = suffixed logPath now -` fmdom' fs"
    unfolding vimage_def by (simp only: existsSync_iff)
  moreover have "inj (suffixed logPath now)" by (rule injI) (rule suffixed_inj)
  ultimately show ?thesis by (simp add: finite_vimageI)
qed

text \<open>The loop of lines 115 to 118, entered with \<open>count\<close> and \<open>logName\<close>.\<close>

function find_name :: "filesystem \<Rightarrow> string \<Rightarrow> (nat \<Rightarrow> string) \<Rightarrow> nat \<Rightarrow> string \<Rightarrow> string" where
  "find_name fs logPath now count logName =
     (if existsSync fs logName
      then find_name fs logPath now (count + 1) (suffixed logPath now (count + 1))
      else logName)"
  by pat_completeness auto
termination
proof (relation "measure (\<lambda>(fs, logPath, now, count, logName).
          card {j. count < j \<and> existsSync fs (suffixed logPath now j)}
          + (if existsSync fs logName then 1 else 0))")
  show "wf (measure (\<lambda>(fs, logPath, now, count, logName).
          card {j. count < j \<and> existsSync fs (suffixed logPath now j)}
          + (if existsSync fs logName then 1 else 0)))" by simp
next
  fix fs :: filesystem and logPath :: string and now :: "nat \<Rightarrow> string"
    and count :: nat and logName :: string
  assume ex: "existsSync fs logName"
  let ?A = "{j. count < j \<and> existsSync fs (suffixed logPath now j)}"
  let ?B = "{j. count + 1 < j \<and> existsSync fs (suffixed logPath now j)}"
  have fin: "finite ?A" using finite_taken [of fs logPath now] by simp
  have "card ?B + (if existsSync fs (suffixed logPath now (count + 1)) then 1 else 0) = card ?A"
  proof (cases "existsSync fs (suffixed logPath now (count + 1))")
    case True
    then have "?A = insert (count + 1) ?B" by (auto simp: Suc_lessI)
    moreover have "count + 1 \<notin> ?B" by simp
    moreover have "finite ?B" using fin by (rule rev_finite_subset) auto
    ultimately show ?thesis using True by simp
  next
    case False
    have "?A = ?B"
    proof (rule set_eqI)
      fix j show "j \<in> ?A \<longleftrightarrow> j \<in> ?B"
        using False by (cases "j = count + 1") auto
    qed
    then show ?thesis using False by simp
  qed
  then show "((fs, logPath, now, count + 1, suffixed logPath now (count + 1)),
              (fs, logPath, now, count, logName))
        \<in> measure (\<lambda>(fs, logPath, now, count, logName).
          card {j. count < j \<and> existsSync fs (suffixed logPath now j)}
          + (if existsSync fs logName then 1 else 0))"
    using ex by simp
qed

declare find_name.simps [simp del]

text \<open>Lines 112 to 120: rotate a \<open>latest.log\<close> that is there.\<close>

definition rotate :: "(nat \<Rightarrow> string) \<Rightarrow> string \<Rightarrow> filesystem \<Rightarrow> filesystem" where
  "rotate now logPath fs =
     (if existsSync fs (logPath @ ''/latest.log'')
      then renameSync (logPath @ ''/latest.log'')
             (find_name fs logPath now 0 (plain logPath now)) fs
      else fs)"

subsection \<open>Start and stop\<close>

text \<open>
  The callback that \<open>start\<close> passes to \<open>then\<close> (lines 106 to 133), applied to the
  array \<open>args\<close> that the \<open>before-start\<close> post resolved to. Reading index 1 of an
  array with fewer than two elements gives \<open>undefined\<close>. The path is assigned first;
  when \<open>mkdirSync\<close> then throws, the callback ends there, the promise of \<open>start\<close> is
  rejected, and no logger is created and no listener registered.

  Modelled from the spec: \<open>LoggerFactory\<close> is not among the source files. By the
  specification it gives the logger that writes the log file of the run under the logs
  directory; creating it is taken to succeed and to leave the files as they are until the
  run writes its log.
\<close>

definition start_then :: "(nat \<Rightarrow> string) \<Rightarrow> jsval list \<Rightarrow> bot \<Rightarrow> bot" where
  "start_then now args b =
     (let p = (if 1 < length args then args ! 1 else Undefined);
          b0 = b\<lparr>path := p\<rparr>;
          logPath = to_string p @ ''/logs''
      in case (if existsSync (files b) logPath then Inr (files b)
               else mkdirSync logPath (files b)) of
           Inl e \<Rightarrow> emit (Rejected e) b0
         | Inr fs1 \<Rightarrow>
             (let fs2 = rotate now logPath fs1;
                  b1 = b0\<lparr>files := fs2, logger := Some logPath\<rparr>;
                  b2 = emit (Log Info (Text ''HeyBox Bot starting...'')) b1;
                  b3 = b2\<lparr>listeners := listeners b2
                             @ [''websocket-message'', ''user-message'', ''command-message''],
                           wsMessageHandlers := wsMessageHandlers b2 + 1\<rparr>
              in emit (Post ''after-start'' [This]) b3))"

text \<open>
  \<open>start(path)\<close>, with \<open>cwd\<close> the value of \<open>process.cwd()\<close> for the default argument
  and \<open>outcome\<close> what the awaited \<open>before-start\<close> post settles to: the array it
  resolves to, or the exception of a listener, with which the promise of \<open>start\<close> is
  rejected.
\<close>

definition start ::
  "string \<Rightarrow> (nat \<Rightarrow> string) \<Rightarrow> string option \<Rightarrow> error + jsval list \<Rightarrow> bot \<Rightarrow> bot" where
  "start cwd now pathArg outcome b =
     (let b0 = emit (Post ''before-start''
                  [This, PathArg (case pathArg of None \<Rightarrow> cwd | Some p \<Rightarrow> p)]) b
      in case outcome of
           Inl e \<Rightarrow> emit (Rejected e) b0
         | Inr args \<Rightarrow> start_then now args b0)"

text \<open>
  \<open>stop()\<close> (lines 146 to 155). The topic posted first is \<open>before-start\<close>, as in the
  source. The callback of \<open>then\<close> runs when that post resolves; when a listener throws,
  the rejection is not handled.
\<close>

definition stop :: "error + jsval list \<Rightarrow> bot \<Rightarrow> bot" where
  "stop outcome b =
     (let b0 = emit (Post ''before-start'' [This]) b
      in case outcome of
           Inl e \<Rightarrow> emit (Rejected e) b0
         | Inr args \<Rightarrow>
             emit (Post ''after-stop'' [This]) (if wsOpened b0 then emit Close b0 else b0))"

subsection \<open>The event bus\<close>

text \<open>
  Modelled from the spec: the class \<open>EventManager\<close> of the package \<open>gugle-event\<close>,
  whose \<open>post\<close> the class calls, is not among the source files. By the specification, a
  registration is a priority, a namespace, a callback and a cancelable flag under a topic;
  \<open>post\<close> runs the listeners of the topic one after the other, by descending priority
  and in registration order among equals, and resolves to the array of their return
  values; a cancelable listener may mark the post cancelled, after which no further
  listener runs; an exception of a listener is not caught. A callback is a function from
  the arguments to the exception it throws or to its return value and whether it marked
  the post cancelled.
\<close>

record registration =
  topic :: string
  namespace :: string
  priority :: int
  cancelable :: bool
  callback :: "arg list \<Rightarrow> error + jsval \<times> bool"

text \<open>Modelled from the spec: the listeners of one post run in the order given, up to
  the first that throws or that cancels.\<close>

fun invoke :: "registration list \<Rightarrow> arg list \<Rightarrow> error + jsval list" where
  "invoke [] args = Inr []"
| "invoke (r # rs) args =
     (case callback r args of
        Inl e \<Rightarrow> Inl e
      | Inr (v, cancelled) \<Rightarrow>
          if cancelable r \<and> cancelled then Inr [v]
          else (case invoke rs args of Inl e \<Rightarrow> Inl e | Inr vs \<Rightarrow> Inr (v # vs)))"

text \<open>Modelled from the spec: \<open>post(topic, ...args)\<close> on the registrations \<open>regs\<close>,
  listed in registration order.\<close>

definition post :: "registration list \<Rightarrow> string \<Rightarrow> arg list \<Rightarrow> error + jsval list" where
  "post regs t args =
     invoke (sort_key (\<lambda>r. - priority r) (filter (\<lambda>r. topic r = t) regs)) args"

subsection \<open>The operations as events\<close>

text \<open>
  What can happen to an instance: the transport opens, a heartbeat timeout fires, a frame
  arrives, \<open>start\<close> or \<open>stop\<close> is called.
\<close>

datatype event =
    WsOpen
  | TimerFire
  | WsMessage string
  | Start "nat \<Rightarrow> string" "string option" "error + jsval list"
  | Stop "error + jsval list"

fun step :: "(string \<Rightarrow> json option) \<Rightarrow> string \<Rightarrow> event \<Rightarrow> bot \<Rightarrow> bot" where
  "step parse cwd WsOpen b = on_open b"
| "step parse cwd TimerFire b = timer_fire b"
| "step parse cwd (WsMessage msg) b = deliver parse msg b"
| "step parse cwd (Start now pathArg outcome) b = start cwd now pathArg outcome b"
| "step parse cwd (Stop outcome) b = stop outcome b"

definition run :: "(string \<Rightarrow> json option) \<Rightarrow> string \<Rightarrow> event list \<Rightarrow> bot \<Rightarrow> bot" where
  "run parse cwd evs b = fold (step parse cwd) evs b"

text \<open>The listener for frames is registered, bound to the transport, and has its logger.\<close>

definition started :: "bot \<Rightarrow> bool" where
  "started b \<longleftrightarrow>
     logger b \<noteq> None \<and> 0 < wsMessageHandlers b
     \<and> 0 < count_list (listeners b) ''websocket-message''"

text \<open>The posts in a trace, in order.\<close>

fun posts_of :: "effect list \<Rightarrow> (string \<times> arg list) list" where
  "posts_of [] = []"
| "posts_of (Post t args # es) = (t, args) # posts_of es"
| "posts_of (e # es) = posts_of es"

definition posts :: "bot \<Rightarrow> (string \<times> arg list) list" where
  "posts b = posts_of (trace b)"




subsection \<open>An instance to compute with\<close>

text \<open>
  A bot constructed in the directory \<open>/bot\<close>, the only node of the file system, on which
  \<open>start\<close> has run with the \<open>before-start\<close> post resolving to two paths, at a clock
  that stands still.
\<close>

definition clock :: "nat \<Rightarrow> string" where
  "clock k = ''2024-05-01-12-00-00''"

definition home :: filesystem where
  "home = fmupd ''/bot'' Dir fmempty"

definition started_bot :: bot where
  "started_bot =
     start ''/bot'' clock None (Inr [Str ''/bot'', Str ''/bot'']) (constructor ''/bot'' home)"

text \<open>
  A logs directory that holds the log of an earlier run, and the same directory after one
  rotation at the time the clock shows.
\<close>

definition old_logs :: filesystem where
  "old_logs =
     fmupd ''/bot/logs/latest.log'' (File ''first run'') (fmupd ''/bot/logs'' Dir fmempty)"

definition rotated_once :: filesystem where
  "rotated_once =
     fmupd ''/bot/logs/2024-05-01-12-00-00.log'' (File ''first run'')
       (fmdrop ''/bot/logs/latest.log'' old_logs)"

text \<open>
  \<open>JSON.parse\<close> on the frames of the examples: three valid texts with what they decode
  to; the one other frame of the examples, with a comma before the closing brace, is not
  valid JSON and makes it throw.
\<close>

definition decode :: "string \<Rightarrow> json option" where
  \<open>decode = map_of
     [(''{}'', JObj []),
      (''{"type":"5","data":{}}'', JObj [(''type'', JStr ''5''), (''data'', JObj [])]),
      (''{"type":"5","data":{"msg":"hi","user_info":{}}}'',
         JObj [(''type'', JStr ''5''),
               (''data'', JObj [(''msg'', JStr ''hi''), (''user_info'', JObj [])])])]\<close>

text \<open>Two \<open>before-start\<close> listeners with the default priority, each returning a path.\<close>

definition first_listener :: registration where
  "first_listener = \<lparr> topic = ''before-start'', namespace = ''plugin-a'', priority = 100,
     cancelable = False, callback = (\<lambda>args. Inr (Str ''/a'', False)) \<rparr>"

definition second_listener :: registration where
  "second_listener = \<lparr> topic = ''before-start'', namespace = ''plugin-b'', priority = 100,
     cancelable = False, callback = (\<lambda>args. Inr (Str ''/b'', False)) \<rparr>"

text \<open>A file system with the directory of the bot and the two directories the listeners
  name.\<close>

definition three_dirs :: filesystem where
  "three_dirs = fmupd ''/a'' Dir (fmupd ''/b'' Dir home)"

text \<open>Six heartbeat timeouts with no reply in between, then a call of \<open>stop\<close>.\<close>

definition lost_then_stopped :: "event list" where
  "lost_then_stopped = replicate 6 TimerFire @ [Stop (Inr [])]"


section \<open>Effects of the handlers, field by field\<close>

lemma funpow_preserve:
  assumes "\<And>x. g (f x) = g x"
  shows "g ((f ^^ n) x) = g x"
  by (induction n) (simp_all add: assms)

lemma posts_of_append: "posts_of (xs @ ys) = posts_of xs @ posts_of ys"
  by (induction xs rule: posts_of.induct) simp_all

lemma posts_emit:
  "posts (emit e b) = posts b @ (case e of Post t args \<Rightarrow> [(t, args)] | _ \<Rightarrow> [])"
  by (cases e) (simp_all add: posts_def emit_def posts_of_append)

lemma probes_emit: "probes (emit e b) = probes b + (if e = Send ''PING'' then 1 else 0)"
  by (simp add: probes_def emit_def)



lemma ping_keeps:
  "wsOpened (ping b) = wsOpened b"
  "logger (ping b) = logger b"
  "listeners (ping b) = listeners b"
  "wsMessageHandlers (ping b) = wsMessageHandlers b"
  "posts (ping b) = posts b"
  by (simp_all add: ping_def emit_def log_opt_def posts_def posts_of_append split: option.split)

lemma onWebsocketMsg_no_logger: "logger b = None \<Longrightarrow> onWebsocketMsg parse b msg = Inl TypeError"
  by (simp add: onWebsocketMsg_def)

lemma onWebsocketMsg_returns:
  "logger b \<noteq> None \<Longrightarrow> \<exists>b'. onWebsocketMsg parse b msg = Inr b'"
  by (auto simp: onWebsocketMsg_def Let_def split: option.splits sum.splits)

lemma try_block_posts:
  assumes "try_block parse msg = Inr (Some p)"
  shows "(\<exists>data userMsg user_info user.
            parse msg = Some data \<and> getprop data ''type'' = Inr (JStr ''5'')
            \<and> getprop data ''data'' = Inr userMsg
            \<and> getprop userMsg ''user_info'' = Inr user_info
            \<and> getprop user_info ''user_base_info'' = Inr user
            \<and> p = Post ''user-message'' [This, Value user, UserImMessageImpl userMsg])
       \<or> (\<exists>data commandMsg user.
            parse msg = Some data \<and> getprop data ''type'' = Inr (JStr ''50'')
            \<and> getprop data ''data'' = Inr commandMsg
            \<and> getprop commandMsg ''sender_info'' = Inr user
            \<and> p = Post ''command-message'' [This, Value user, Value commandMsg])"
  using assms
  by (auto simp: try_block_def split: option.splits sum.splits if_splits)

lemma onWebsocketMsg_trace:
  assumes "onWebsocketMsg parse b msg = Inr b'"
  shows "trace b' = trace b @ Log Debug (Text msg) #
           (if msg = ''PONG'' then []
            else if startsWith msg ''{'' \<and> endsWith msg ''}'' then
              (case try_block parse msg of
                 Inl e \<Rightarrow> [Log Error (Thrown e)]
               | Inr None \<Rightarrow> []
               | Inr (Some p) \<Rightarrow> [p])
            else [])"
  using assms
  by (auto simp: onWebsocketMsg_def Let_def emit_def split: option.splits sum.splits if_splits)

lemma onWebsocketMsg_keeps:
  assumes "onWebsocketMsg parse b msg = Inr b'"
  shows "wsOpened b' = wsOpened b" "logger b' = logger b" "listeners b' = listeners b"
    "wsMessageHandlers b' = wsMessageHandlers b" "timers b' = timers b"
    "files b' = files b" "path b' = path b"
    "heartbeatTimes b' = (if msg = ''PONG'' then 0 else heartbeatTimes b)"
  using assms
  by (auto simp: onWebsocketMsg_def Let_def emit_def split: option.splits sum.splits if_splits)

lemma try_block_not_send: "try_block parse msg = Inr (Some p) \<Longrightarrow> p \<noteq> Send s"
  using try_block_posts by fastforce

lemma onWebsocketMsg_probes:
  assumes "onWebsocketMsg parse b msg = Inr b'"
  shows "probes b' = probes b"
  using onWebsocketMsg_trace [OF assms] try_block_not_send [of parse msg]
  by (auto simp: probes_def split: sum.splits option.splits)

lemma run_listener_keeps:
  "wsOpened (run_listener parse msg b) = wsOpened b"
  "logger (run_listener parse msg b) = logger b"
  "listeners (run_listener parse msg b) = listeners b"
  "wsMessageHandlers (run_listener parse msg b) = wsMessageHandlers b"
  "probes (run_listener parse msg b) = probes b"
  by (auto simp: run_listener_def emit_def probes_def onWebsocketMsg_keeps onWebsocketMsg_probes [unfolded probes_def] split: sum.splits)

lemma run_listener_hb:
  "heartbeatTimes (run_listener parse msg b)
     = (if msg = ''PONG'' \<and> logger b \<noteq> None then 0 else heartbeatTimes b)"
proof (cases "logger b")
  case None
  then show ?thesis
    by (simp add: run_listener_def onWebsocketMsg_no_logger emit_def)
next
  case (Some d)
  then obtain b' where r: "onWebsocketMsg parse b msg = Inr b'"
    using onWebsocketMsg_returns [of b parse msg] by auto
  then show ?thesis
    using Some onWebsocketMsg_keeps(8) [OF r] by (simp add: run_listener_def)
qed


lemma ws_on_message_keeps:
  "wsOpened (ws_on_message parse msg b) = wsOpened b"
  "logger (ws_on_message parse msg b) = logger b"
  "listeners (ws_on_message parse msg b) = listeners b"
  "wsMessageHandlers (ws_on_message parse msg b) = wsMessageHandlers b"
  "probes (ws_on_message parse msg b) = probes b"
  unfolding ws_on_message_def dispatch_def
  by (simp_all add: funpow_preserve [where f = "run_listener parse msg"] run_listener_keeps
      emit_def probes_emit [unfolded emit_def])

lemma run_listeners_hb:
  "heartbeatTimes ((run_listener parse msg ^^ n) b)
     = (if msg = ''PONG'' \<and> logger b \<noteq> None \<and> 0 < n then 0 else heartbeatTimes b)"
proof (induction n)
  case 0
  then show ?case by simp
next
  case (Suc n)
  have "logger ((run_listener parse msg ^^ n) b) = logger b"
    by (rule funpow_preserve) (rule run_listener_keeps)
  then show ?case using Suc by (auto simp: run_listener_hb)
qed

lemma ws_on_message_hb:
  "heartbeatTimes (ws_on_message parse msg b)
     = (if msg = ''PONG'' \<and> logger b \<noteq> None \<and> 0 < count_list (listeners b) ''websocket-message''
        then 0 else heartbeatTimes b)"
  unfolding ws_on_message_def dispatch_def by (auto simp: run_listeners_hb emit_def)


lemma ws_on_messages_keeps:
  "wsOpened ((ws_on_message parse msg ^^ n) b) = wsOpened b"
  "logger ((ws_on_message parse msg ^^ n) b) = logger b"
  "listeners ((ws_on_message parse msg ^^ n) b) = listeners b"
  "wsMessageHandlers ((ws_on_message parse msg ^^ n) b) = wsMessageHandlers b"
  "probes ((ws_on_message parse msg ^^ n) b) = probes b"
  by (simp_all add: funpow_preserve [where f = "ws_on_message parse msg"] ws_on_message_keeps)

lemma deliver_keeps:
  "wsOpened (deliver parse msg b) = wsOpened b"
  "logger (deliver parse msg b) = logger b"
  "listeners (deliver parse msg b) = listeners b"
  "wsMessageHandlers (deliver parse msg b) = wsMessageHandlers b"
  "probes (deliver parse msg b) = probes b"
  unfolding deliver_def by (rule ws_on_messages_keeps)+

lemma ws_on_messages_hb:
  "heartbeatTimes ((ws_on_message parse msg ^^ n) b)
     = (if msg = ''PONG'' \<and> logger b \<noteq> None \<and> 0 < count_list (listeners b) ''websocket-message''
          \<and> 0 < n
        then 0 else heartbeatTimes b)"
proof (induction n)
  case 0
  then show ?case by simp
next
  case (Suc n)
  then show ?case by (auto simp: ws_on_message_hb ws_on_messages_keeps)
qed

lemma deliver_hb:
  "heartbeatTimes (deliver parse msg b)
     = (if msg = ''PONG'' \<and> started b then 0 else heartbeatTimes b)"
  unfolding deliver_def by (auto simp: ws_on_messages_hb started_def)



lemma start_keeps:
  "wsOpened (start cwd now pathArg outcome b) = wsOpened b"
  "heartbeatTimes (start cwd now pathArg outcome b) = heartbeatTimes b"
  "probes (start cwd now pathArg outcome b) = probes b"
  by (simp_all add: start_def start_then_def emit_def Let_def probes_def split: sum.split)

lemma stop_keeps:
  "wsOpened (stop outcome b) = wsOpened b"
  "heartbeatTimes (stop outcome b) = heartbeatTimes b"
  "probes (stop outcome b) = probes b"
  "logger (stop outcome b) = logger b"
  "listeners (stop outcome b) = listeners b"
  "wsMessageHandlers (stop outcome b) = wsMessageHandlers b"
  by (simp_all add: stop_def emit_def Let_def probes_def split: sum.split)


lemma timer_fire_keeps:
  "wsOpened (timer_fire b) = wsOpened b"
  "logger (timer_fire b) = logger b"
  "listeners (timer_fire b) = listeners b"
  "wsMessageHandlers (timer_fire b) = wsMessageHandlers b"
  by (simp_all add: timer_fire_def ping_keeps)



lemma run_snoc: "run parse cwd (evs @ [e]) b = step parse cwd e (run parse cwd evs b)"
  by (simp add: run_def)





lemma step_wsOpened: "wsOpened b \<Longrightarrow> wsOpened (step parse cwd e b)"
  by (cases e)
    (simp_all add: on_open_def ping_keeps timer_fire_keeps deliver_keeps start_keeps stop_keeps)

lemma run_wsOpened: "wsOpened b \<Longrightarrow> wsOpened (run parse cwd evs b)"
  by (induction evs rule: rev_induct) (simp_all add: run_snoc step_wsOpened, simp add: run_def)

lemma counter_at_most_six:
  assumes "heartbeatTimes b \<le> 6"
  shows "heartbeatTimes (step parse cwd e b) \<le> 6"
  using assms
  by (cases e)
    (auto simp: on_open_def timer_fire_def ping_def emit_def log_opt_def deliver_hb
      start_keeps stop_keeps split: option.splits)


lemma started_bot_fields:
  "logger started_bot = Some ''/bot/logs''"
  "heartbeatTimes started_bot = 0"
  "wsOpened started_bot = False"
  "timers started_bot = 0"
  "wsMessageHandlers started_bot = 1"
  "listeners started_bot = [''websocket-message'', ''user-message'', ''command-message'']"
  "trace started_bot = [Post ''before-start'' [This, PathArg ''/bot''],
      Log Info (Text ''HeyBox Bot starting...''), Post ''after-start'' [This]]"
  by (simp_all add: started_bot_def start_def start_then_def constructor_def emit_def Let_def
      home_def existsSync_def mkdirSync_def dirname_def)

lemma opened_fields:
  "logger (on_open started_bot) = Some ''/bot/logs''"
  "heartbeatTimes (on_open started_bot) = 1"
  "wsOpened (on_open started_bot) = True"
  "timers (on_open started_bot) = 1"
  "wsMessageHandlers (on_open started_bot) = 1"
  "listeners (on_open started_bot) = [''websocket-message'', ''user-message'', ''command-message'']"
  "trace (on_open started_bot) = [Post ''before-start'' [This, PathArg ''/bot''],
      Log Info (Text ''HeyBox Bot starting...''), Post ''after-start'' [This], Send ''PING'']"
  by (simp_all add: on_open_def ping_def emit_def started_bot_fields)


lemma json_shaped_not_pong: "startsWith msg ''{'' \<Longrightarrow> msg \<noteq> ''PONG''"
  by (auto simp: startsWith_def)

lemma run_listener_posts_quiet:
  assumes "\<And>p. try_block parse msg \<noteq> Inr (Some p)"
  shows "posts (run_listener parse msg b) = posts b"
proof (cases "onWebsocketMsg parse b msg")
  case (Inl e)
  then show ?thesis by (simp add: run_listener_def posts_emit)
next
  case (Inr b')
  then show ?thesis
    using onWebsocketMsg_trace [OF Inr] assms
    by (auto simp: run_listener_def posts_def posts_of_append split: sum.splits option.splits)
qed

lemma deliver_posts_quiet:
  assumes "\<And>p. try_block parse msg \<noteq> Inr (Some p)"
  shows "posts (deliver parse msg b)
           = posts b @ replicate (wsMessageHandlers b) (''websocket-message'', [This, RawData msg])"
proof -
  have one: "posts (ws_on_message parse msg c)
               = posts c @ [(''websocket-message'', [This, RawData msg])]" for c
  proof -
    have "posts ((run_listener parse msg ^^ n) d) = posts d" for n d
      by (rule funpow_preserve) (rule run_listener_posts_quiet [OF assms])
    then show ?thesis unfolding ws_on_message_def dispatch_def by (simp add: posts_emit)
  qed
  have "posts ((ws_on_message parse msg ^^ n) b)
          = posts b @ replicate n (''websocket-message'', [This, RawData msg])" for n
    by (induction n) (simp_all add: one replicate_append_same)
  then show ?thesis unfolding deliver_def by simp
qed

lemma onWebsocketMsg_shaped:
  assumes "logger b \<noteq> None" and "startsWith msg ''{''" and "endsWith msg ''}''"
  shows "onWebsocketMsg parse b msg
           = Inr (case try_block parse msg of
                    Inl e \<Rightarrow> emit (Log Error (Thrown e)) (emit (Log Debug (Text msg)) b)
                  | Inr None \<Rightarrow> emit (Log Debug (Text msg)) b
                  | Inr (Some p) \<Rightarrow> emit p (emit (Log Debug (Text msg)) b))"
  using assms json_shaped_not_pong [OF assms(2)]
  by (auto simp: onWebsocketMsg_def Let_def split: sum.splits option.splits)

lemma step_wsOpened_eq: "e \<noteq> WsOpen \<Longrightarrow> wsOpened (step parse cwd e b) = wsOpened b"
  by (cases e) (simp_all add: timer_fire_keeps deliver_keeps start_keeps stop_keeps)

lemma run_never_opened:
  "WsOpen \<notin> set evs \<Longrightarrow> wsOpened (run parse cwd evs b) = wsOpened b"
proof (induction evs rule: rev_induct)
  case Nil
  then show ?case by (simp add: run_def)
next
  case (snoc e evs)
  then show ?case
    using step_wsOpened_eq [of e parse cwd "run parse cwd evs b"] by (auto simp: run_snoc)
qed

lemma stop_trace:
  "trace (stop (Inr r) b)
     = trace b @ [Post ''before-start'' [This]] @ (if wsOpened b then [Close] else [])
         @ [Post ''after-stop'' [This]]"
  "trace (stop (Inl x) b) = trace b @ [Post ''before-start'' [This], Rejected x]"
  by (simp_all add: stop_def emit_def Let_def)

lemma run_opened: "WsOpen \<in> set evs \<Longrightarrow> wsOpened (run parse cwd evs b)"
proof (induction evs rule: rev_induct)
  case Nil
  then show ?case by simp
next
  case (snoc e evs)
  show ?case
  proof (cases "e = WsOpen")
    case True
    then show ?thesis by (simp add: run_snoc on_open_def ping_keeps)
  next
    case False
    with snoc have "wsOpened (run parse cwd evs b)" by simp
    then show ?thesis by (simp add: run_snoc step_wsOpened)
  qed
qed

lemma lost_then_stopped_trace:
  "trace (run Map.empty ''/bot'' lost_then_stopped (on_open started_bot))
     = [Post ''before-start'' [This, PathArg ''/bot''],
        Log Info (Text ''HeyBox Bot starting...''), Post ''after-start'' [This],
        Send ''PING'', Send ''PING'', Send ''PING'', Send ''PING'', Send ''PING'', Send ''PING'',
        Log Error (Text ''WebSocket connection lost, reconnecting...''), Terminate,
        Post ''before-start'' [This], Close, Post ''after-stop'' [This]]"
  by (simp add: lost_then_stopped_def run_def eval_nat_numeral opened_fields timer_fire_def
      ping_def emit_def log_opt_def stop_def Let_def)

lemma timer_fire_idle: "timers b = 0 \<Longrightarrow> (timer_fire ^^ n) b = b"
  by (induction n) (simp_all add: timer_fire_def)

lemma probing:
  assumes "heartbeatTimes b = 0" and "timers b = 0" and "k \<le> 5"
  shows "(timer_fire ^^ k) (on_open b)
           = b\<lparr>wsOpened := True, heartbeatTimes := k + 1, timers := 1,
               trace := trace b @ replicate (k + 1) (Send ''PING'')\<rparr>"
  using assms(3)
proof (induction k)
  case 0
  then show ?case using assms(1,2) by (simp add: on_open_def ping_def emit_def)
next
  case (Suc k)
  then show ?case
    by (simp add: timer_fire_def ping_def emit_def replicate_append_same)
qed

lemma sixth_tick:
  assumes "heartbeatTimes b = 0" and "timers b = 0"
  shows "(timer_fire ^^ 6) (on_open b)
           = b\<lparr>wsOpened := True, heartbeatTimes := 6, timers := 0,
               trace := trace b @ replicate 6 (Send ''PING'')
                 @ (case logger b of None \<Rightarrow> []
                    | Some d \<Rightarrow> [Log Error (Text ''WebSocket connection lost, reconnecting...'')])
                 @ [Terminate]\<rparr>"
proof -
  have "(timer_fire ^^ 6) (on_open b) = timer_fire ((timer_fire ^^ 5) (on_open b))"
    by (simp add: eval_nat_numeral)
  also have "\<dots> = timer_fire (b\<lparr>wsOpened := True, heartbeatTimes := 6, timers := 1,
               trace := trace b @ replicate 6 (Send ''PING'')\<rparr>)"
    using probing [OF assms, of 5] by simp
  finally show ?thesis
    by (simp add: timer_fire_def ping_def emit_def log_opt_def split: option.split)
qed



section \<open>The rotation of the log file\<close>

lemma find_name_fresh: "\<not> existsSync fs (find_name fs logPath now count logName)"
  by (induction fs logPath now count logName rule: find_name.induct)
    (subst find_name.simps, simp)

lemma find_name_form:
  "find_name fs logPath now count logName = logName \<and> \<not> existsSync fs logName
   \<or> (\<exists>k>count. find_name fs logPath now count logName = suffixed logPath now k
         \<and> existsSync fs logName
         \<and> (\<forall>j. count < j \<and> j < k \<longrightarrow> existsSync fs (suffixed logPath now j)))"
proof (induction fs logPath now count logName rule: find_name.induct)
  case (1 fs logPath now count logName)
  show ?case
  proof (cases "existsSync fs logName")
    case False
    then show ?thesis by (subst find_name.simps) simp
  next
    case True
    let ?r = "find_name fs logPath now (count + 1) (suffixed logPath now (count + 1))"
    have eq: "find_name fs logPath now count logName = ?r"
      using True by (subst find_name.simps) simp
    from 1 [OF True] consider
        (stop) "?r = suffixed logPath now (count + 1)"
          "\<not> existsSync fs (suffixed logPath now (count + 1))"
      | (go) k where "count + 1 < k" "?r = suffixed logPath now k"
          "existsSync fs (suffixed logPath now (count + 1))"
          "\<forall>j. count + 1 < j \<and> j < k \<longrightarrow> existsSync fs (suffixed logPath now j)"
      by blast
    then show ?thesis
    proof cases
      case stop
      then show ?thesis using True eq by (intro disjI2 exI [of _ "count + 1"]) auto
    next
      case go
      have "\<forall>j. count < j \<and> j < k \<longrightarrow> existsSync fs (suffixed logPath now j)"
      proof (intro allI impI)
        fix j assume "count < j \<and> j < k"
        then show "existsSync fs (suffixed logPath now j)"
          using go(3,4) by (cases "j = count + 1") auto
      qed
      then show ?thesis using True eq go(1,2) by (intro disjI2 exI [of _ k]) auto
    qed
  qed
qed

lemma rotate_effect:
  assumes "existsSync fs (logPath @ ''/latest.log'')"
  shows "fmlookup (rotate now logPath fs) (find_name fs logPath now 0 (plain logPath now))
           = fmlookup fs (logPath @ ''/latest.log'')"
    and "fmlookup (rotate now logPath fs) (logPath @ ''/latest.log'') = None"
    and "q \<noteq> logPath @ ''/latest.log'' \<Longrightarrow> q \<noteq> find_name fs logPath now 0 (plain logPath now)
           \<Longrightarrow> fmlookup (rotate now logPath fs) q = fmlookup fs q"
proof -
  let ?t = "find_name fs logPath now 0 (plain logPath now)"
  have "\<not> existsSync fs ?t" by (rule find_name_fresh)
  with assms have ne: "?t \<noteq> logPath @ ''/latest.log''" by auto
  obtain n where n: "fmlookup fs (logPath @ ''/latest.log'') = Some n"
    using assms by (auto simp: existsSync_def)
  then have r: "rotate now logPath fs = fmupd ?t n (fmdrop (logPath @ ''/latest.log'') fs)"
    using assms by (simp add: rotate_def renameSync_def)
  show "fmlookup (rotate now logPath fs) ?t = fmlookup fs (logPath @ ''/latest.log'')"
    unfolding r n by simp
  show "fmlookup (rotate now logPath fs) (logPath @ ''/latest.log'') = None"
    unfolding r using ne by simp
  show "q \<noteq> logPath @ ''/latest.log'' \<Longrightarrow> q \<noteq> ?t
           \<Longrightarrow> fmlookup (rotate now logPath fs) q = fmlookup fs q"
    unfolding r by simp
qed

lemma rotate_keeps_dir: "existsSync fs logPath \<Longrightarrow> existsSync (rotate now logPath fs) logPath"
  by (auto simp: rotate_def renameSync_def existsSync_def split: option.splits)

lemma dirname_logs: "dirname (p @ ''/logs'') = p"
  by (simp add: dirname_def)

lemma start_files:
  assumes "existsSync (files b)
             (to_string (if 1 < length args then args ! 1 else Undefined) @ ''/logs'')"
  shows "files (start cwd now pathArg (Inr args) b)
           = rotate now (to_string (if 1 < length args then args ! 1 else Undefined) @ ''/logs'')
               (files b)"
  using assms by (simp add: start_def start_then_def emit_def Let_def)

lemma start_path:
  "path (start cwd now pathArg (Inr args) b) = (if 1 < length args then args ! 1 else Undefined)"
  by (simp add: start_def start_then_def emit_def Let_def split: sum.split)

lemma start_no_parent:
  assumes "\<not> existsSync (files b)
             (to_string (if 1 < length args then args ! 1 else Undefined) @ ''/logs'')"
    and "to_string (if 1 < length args then args ! 1 else Undefined) \<noteq> []"
    and "fmlookup (files b) (to_string (if 1 < length args then args ! 1 else Undefined)) = None"
  shows "start cwd now pathArg (Inr args) b
           = b\<lparr>path := (if 1 < length args then args ! 1 else Undefined),
               trace := trace b
                 @ [Post ''before-start''
                      [This, PathArg (case pathArg of None \<Rightarrow> cwd | Some p \<Rightarrow> p)],
                    Rejected ENOENT]\<rparr>"
  using assms
  by (simp add: start_def start_then_def emit_def Let_def mkdirSync_def dirname_logs)

lemma start_with_parent:
  assumes "fmlookup (files b) (to_string (if 1 < length args then args ! 1 else Undefined))
             = Some Dir"
  shows "logger (start cwd now pathArg (Inr args) b)
           = Some (to_string (if 1 < length args then args ! 1 else Undefined) @ ''/logs'')"
  using assms
  by (simp add: start_def start_then_def emit_def Let_def mkdirSync_def dirname_logs)


lemma old_logs_lookup:
  "existsSync old_logs ''/bot/logs''"
  "existsSync old_logs ''/bot/logs/latest.log''"
  "fmlookup old_logs ''/bot/logs/latest.log'' = Some (File ''first run'')"
  by (simp_all add: old_logs_def existsSync_def)

lemma constructor_files: "files (constructor cwd fs) = fs"
  by (simp add: constructor_def)

lemma first_name:
  "find_name old_logs ''/bot/logs'' clock 0 (plain ''/bot/logs'' clock)
     = ''/bot/logs/2024-05-01-12-00-00.log''"
  by (simp add: find_name.simps old_logs_def existsSync_def plain_def clock_def)

lemma first_start_files:
  "files (start ''/bot'' clock None (Inr [Str ''/bot'', Str ''/bot'']) (constructor ''/bot'' old_logs))
     = rotated_once"
  by (simp add: start_files constructor_files rotate_def first_name old_logs_lookup
      renameSync_def rotated_once_def)

lemma second_name:
  "find_name (fmupd ''/bot/logs/latest.log'' (File ''second run'') rotated_once)
      ''/bot/logs'' clock 0 (plain ''/bot/logs'' clock)
     = ''/bot/logs/2024-05-01-12-00-00-1.log''"
  by (simp add: find_name.simps rotated_once_def old_logs_def existsSync_def plain_def
      suffixed_def clock_def dec.simps digit_char_def)

lemma two_listeners_post:
  "post [first_listener, second_listener] ''before-start'' [This, PathArg ''/bot'']
     = Inr [Str ''/a'', Str ''/b'']"
  by (simp add: post_def first_listener_def second_listener_def)

lemma one_listener_post:
  "post [first_listener] ''before-start'' [This, PathArg ''/bot''] = Inr [Str ''/a'']"
  by (simp add: post_def first_listener_def)

section \<open>The claims\<close>

subsection \<open>C1: loss of the heartbeat\<close>

text \<open>
  Claim C1, as amended. A connection opens with the counter at 0 and no timeout pending;
  the open handler sends the first probe. With no liveness reply arriving, each of the
  first five heartbeat timeouts sends one more probe and schedules the next timeout. The
  sixth timeout sends nothing: it logs at error severity if \<open>start\<close> has created the
  logger and logs nothing otherwise, terminates the transport, and schedules nothing. So
  the transport is terminated once, after six probes, no timeout is pending afterwards,
  and however often the timer is asked to fire again nothing changes: no seventh probe is
  sent.
\<close>

theorem heartbeat_loss_terminates_once:
  assumes "heartbeatTimes b = 0" and "timers b = 0"
  shows "(\<forall>k\<le>5. trace ((timer_fire ^^ k) (on_open b))
                   = trace b @ replicate (k + 1) (Send ''PING'')
                 \<and> timers ((timer_fire ^^ k) (on_open b)) = 1)
       \<and> trace ((timer_fire ^^ 6) (on_open b))
           = trace b @ replicate 6 (Send ''PING'')
               @ (case logger b of None \<Rightarrow> []
                  | Some d \<Rightarrow> [Log Error (Text ''WebSocket connection lost, reconnecting...'')])
               @ [Terminate]
       \<and> timers ((timer_fire ^^ 6) (on_open b)) = 0
       \<and> (\<forall>n. (timer_fire ^^ n) ((timer_fire ^^ 6) (on_open b)) = (timer_fire ^^ 6) (on_open b))"
proof -
  have t: "timers ((timer_fire ^^ 6) (on_open b)) = 0"
    by (simp only: sixth_tick [OF assms]) simp
  show ?thesis
    using probing [OF assms] sixth_tick [OF assms] timer_fire_idle [OF t]
    by simp
qed

text \<open>
  The theorem on the started bot: six probes, then the error log and the termination.
\<close>

theorem heartbeat_loss_terminates_once_witness:
  "heartbeatTimes started_bot = 0 \<and> timers started_bot = 0
   \<and> trace ((timer_fire ^^ 5) (on_open started_bot))
       = trace started_bot @ replicate 6 (Send ''PING'')
   \<and> timers ((timer_fire ^^ 5) (on_open started_bot)) = 1
   \<and> trace ((timer_fire ^^ 6) (on_open started_bot))
       = trace started_bot @ replicate 6 (Send ''PING'')
           @ [Log Error (Text ''WebSocket connection lost, reconnecting...''), Terminate]
   \<and> terminations ((timer_fire ^^ 6) (on_open started_bot)) = 1
   \<and> probes ((timer_fire ^^ 6) (on_open started_bot)) = 6
   \<and> timers ((timer_fire ^^ 6) (on_open started_bot)) = 0
   \<and> (timer_fire ^^ 4) ((timer_fire ^^ 6) (on_open started_bot))
       = (timer_fire ^^ 6) (on_open started_bot)"
proof -
  have six: "replicate 6 x = [x, x, x, x, x, x]"
    and five: "replicate 5 x = [x, x, x, x, x]" for x :: effect
    by (simp_all add: eval_nat_numeral)
  show ?thesis
    using heartbeat_loss_terminates_once [of started_bot]
    by (simp add: started_bot_fields terminations_def probes_def six five)
qed

text \<open>
  Claim C1 as stated fails on a bot that was constructed and never started. After the
  open handler and five timeouts six probes are out and the transport is not terminated.
  The sixth timeout terminates it, and since the logger is undefined and
  \<open>this.logger?.error\<close> does nothing, the termination is not logged.
\<close>

theorem unstarted_bot_logs_nothing_counterexample:
  "trace ((timer_fire ^^ 5) (on_open (constructor ''/bot'' fmempty)))
     = [Send ''PING'', Send ''PING'', Send ''PING'', Send ''PING'', Send ''PING'', Send ''PING'']
   \<and> trace ((timer_fire ^^ 6) (on_open (constructor ''/bot'' fmempty)))
     = [Send ''PING'', Send ''PING'', Send ''PING'', Send ''PING'', Send ''PING'', Send ''PING'',
        Terminate]"
  by (simp add: eval_nat_numeral constructor_def on_open_def timer_fire_def ping_def emit_def
      log_opt_def)

subsection \<open>C2: the missed-heartbeat counter\<close>




subsection \<open>C3: the liveness reply\<close>



subsection \<open>C4: frames that fail to decode\<close>

text \<open>
  Claim C4. For a frame that starts with an opening brace, ends with a closing brace and
  makes \<open>JSON.parse\<close> throw, the handler returns normally; the only change to the state
  is that the frame is logged at debug severity and the exception at error severity.
  Delivered through the message signal, the frame is posted on \<open>websocket-message\<close> and
  on no other topic, and the open flag and the counter are as before.
\<close>

theorem malformed_json_is_logged_and_dropped:
  assumes "logger b \<noteq> None" and "startsWith msg ''{''" and "endsWith msg ''}''"
    and "parse msg = None"
  shows "onWebsocketMsg parse b msg
           = Inr (b\<lparr>trace := trace b @ [Log Debug (Text msg), Log Error (Thrown SyntaxError)]\<rparr>)
       \<and> posts (step parse cwd (WsMessage msg) b)
           = posts b @ replicate (wsMessageHandlers b) (''websocket-message'', [This, RawData msg])
       \<and> wsOpened (step parse cwd (WsMessage msg) b) = wsOpened b
       \<and> heartbeatTimes (step parse cwd (WsMessage msg) b) = heartbeatTimes b"
proof -
  have t: "try_block parse msg = Inl SyntaxError"
    using assms(4) by (simp add: try_block_def)
  have "onWebsocketMsg parse b msg
           = Inr (b\<lparr>trace := trace b @ [Log Debug (Text msg), Log Error (Thrown SyntaxError)]\<rparr>)"
    using assms(1-3) t json_shaped_not_pong [OF assms(2)]
    by (auto simp: onWebsocketMsg_def Let_def emit_def)
  moreover have "posts (step parse cwd (WsMessage msg) b)
           = posts b @ replicate (wsMessageHandlers b) (''websocket-message'', [This, RawData msg])"
    using deliver_posts_quiet [of parse msg b] t by simp
  moreover have "heartbeatTimes (step parse cwd (WsMessage msg) b) = heartbeatTimes b"
    using json_shaped_not_pong [OF assms(2)] by (simp add: deliver_hb)
  ultimately show ?thesis by (simp add: deliver_keeps)
qed

text \<open>
  The theorem on a frame with a comma before the closing brace.
\<close>

theorem malformed_json_is_logged_and_dropped_witness:
  \<open>logger (on_open started_bot) \<noteq> None
   \<and> startsWith ''{"type":"5",}'' ''{'' \<and> endsWith ''{"type":"5",}'' ''}''
   \<and> decode ''{"type":"5",}'' = None
   \<and> onWebsocketMsg decode (on_open started_bot) ''{"type":"5",}''
        = Inr ((on_open started_bot)\<lparr>trace := trace (on_open started_bot)
             @ [Log Debug (Text ''{"type":"5",}''), Log Error (Thrown SyntaxError)]\<rparr>)
   \<and> posts (step decode ''/bot'' (WsMessage ''{"type":"5",}'') (on_open started_bot))
        = posts (on_open started_bot) @ [(''websocket-message'', [This, RawData ''{"type":"5",}''])]
   \<and> wsOpened (step decode ''/bot'' (WsMessage ''{"type":"5",}'') (on_open started_bot))
   \<and> heartbeatTimes (step decode ''/bot'' (WsMessage ''{"type":"5",}'') (on_open started_bot)) = 1\<close>
  using malformed_json_is_logged_and_dropped
    [of "on_open started_bot" \<open>''{"type":"5",}''\<close> decode "''/bot''"]
  by (simp add: opened_fields startsWith_def endsWith_def decode_def)

subsection \<open>C5: the working path\<close>

text \<open>
  Claim C5: the code does not do what the claim says. \<open>start\<close> reads index 1 of the
  array the \<open>before-start\<close> post resolves to. With the bus of the specification, whose
  post resolves to the return values of the listeners in the order they ran: with one
  listener, returning \<open>/a\<close>, the working path becomes \<open>undefined\<close>, the directory
  \<open>undefined/logs\<close> cannot be made, and \<open>start\<close> is rejected with no logger and no
  listener; with two listeners, returning \<open>/a\<close> and \<open>/b\<close>, the working path is
  \<open>/b\<close>, what the second returned, and the logger is created for \<open>/b/logs\<close>; with
  no listener the path argument \<open>/bot\<close> given to \<open>start\<close> is replaced by
  \<open>undefined\<close>.
\<close>

theorem start_reads_index_one:
  "post [first_listener] ''before-start'' [This, PathArg ''/bot''] = Inr [Str ''/a'']
   \<and> start ''/bot'' clock (Some ''/bot'')
        (post [first_listener] ''before-start'' [This, PathArg ''/bot''])
        (constructor ''/bot'' three_dirs)
       = (constructor ''/bot'' three_dirs)
           \<lparr>path := Undefined,
            trace := [Post ''before-start'' [This, PathArg ''/bot''], Rejected ENOENT]\<rparr>
   \<and> post [first_listener, second_listener] ''before-start'' [This, PathArg ''/bot'']
       = Inr [Str ''/a'', Str ''/b'']
   \<and> path (start ''/bot'' clock (Some ''/bot'')
        (post [first_listener, second_listener] ''before-start'' [This, PathArg ''/bot''])
        (constructor ''/bot'' three_dirs)) = Str ''/b''
   \<and> logger (start ''/bot'' clock (Some ''/bot'')
        (post [first_listener, second_listener] ''before-start'' [This, PathArg ''/bot''])
        (constructor ''/bot'' three_dirs)) = Some ''/b/logs''
   \<and> post [] ''before-start'' [This, PathArg ''/bot''] = Inr []
   \<and> path (start ''/bot'' clock (Some ''/bot'')
        (post [] ''before-start'' [This, PathArg ''/bot''])
        (constructor ''/bot'' three_dirs)) = Undefined"
proof -
  have none: "post [] ''before-start'' [This, PathArg ''/bot''] = Inr []"
    by (simp add: post_def)
  have one: "start ''/bot'' clock (Some ''/bot'') (Inr [Str ''/a''])
        (constructor ''/bot'' three_dirs)
       = (constructor ''/bot'' three_dirs)
           \<lparr>path := Undefined,
            trace := [Post ''before-start'' [This, PathArg ''/bot''], Rejected ENOENT]\<rparr>"
    by (subst start_no_parent)
      (simp_all add: constructor_def three_dirs_def home_def existsSync_def)
  have two: "logger (start ''/bot'' clock (Some ''/bot'') (Inr [Str ''/a'', Str ''/b''])
        (constructor ''/bot'' three_dirs)) = Some ''/b/logs''"
    by (subst start_with_parent) (simp_all add: constructor_def three_dirs_def)
  show ?thesis
    by (simp add: one_listener_post two_listeners_post none one two start_path)
qed

subsection \<open>C6: stop\<close>

text \<open>
  Claim C6. \<open>stop\<close> posts its first topic (the source names it \<open>before-start\<close>);
  when that post resolves it closes the transport if and only if the open flag is set,
  and then posts \<open>after-stop\<close>, in this order and with nothing in between. When a
  listener of the first post throws, the rejection is the only further effect. On an
  instance whose open signal never fired, whatever else happened to it, \<open>stop\<close> makes
  the two posts, no close call, and no rejection.
\<close>

theorem stop_sequence:
  "trace (stop (Inr r) b)
     = trace b @ [Post ''before-start'' [This]] @ (if wsOpened b then [Close] else [])
         @ [Post ''after-stop'' [This]]
   \<and> trace (stop (Inl x) b) = trace b @ [Post ''before-start'' [This], Rejected x]
   \<and> (WsOpen \<notin> set evs \<longrightarrow>
        trace (stop (Inr r) (run parse cwd evs (constructor dir fs)))
          = trace (run parse cwd evs (constructor dir fs))
              @ [Post ''before-start'' [This], Post ''after-stop'' [This]])"
proof (intro conjI impI)
  assume "WsOpen \<notin> set evs"
  then have "wsOpened (run parse cwd evs (constructor dir fs)) = False"
    by (simp add: run_never_opened constructor_def)
  then show "trace (stop (Inr r) (run parse cwd evs (constructor dir fs)))
          = trace (run parse cwd evs (constructor dir fs))
              @ [Post ''before-start'' [This], Post ''after-stop'' [This]]"
    by (simp add: stop_trace)
qed (simp_all only: stop_trace)

text \<open>
  The theorem on the opened bot, with the first post resolving and with a listener that
  throws, and on a bot that was started and never opened.
\<close>

theorem stop_sequence_witness:
  "trace (stop (Inr []) (on_open started_bot))
     = trace (on_open started_bot)
         @ [Post ''before-start'' [This], Close, Post ''after-stop'' [This]]
   \<and> trace (stop (Inl (ListenerError ''thrown by a listener'')) (on_open started_bot))
     = trace (on_open started_bot)
         @ [Post ''before-start'' [This], Rejected (ListenerError ''thrown by a listener'')]
   \<and> WsOpen \<notin> set [Start clock None (Inr [Str ''/bot'', Str ''/bot''])]
   \<and> trace (stop (Inr [])
        (run Map.empty ''/bot'' [Start clock None (Inr [Str ''/bot'', Str ''/bot''])]
          (constructor ''/bot'' home)))
     = [Post ''before-start'' [This, PathArg ''/bot''],
        Log Info (Text ''HeyBox Bot starting...''), Post ''after-start'' [This],
        Post ''before-start'' [This], Post ''after-stop'' [This]]"
  using stop_sequence [of "[]" "on_open started_bot" "ListenerError ''thrown by a listener''"
     "[Start clock None (Inr [Str ''/bot'', Str ''/bot''])]" Map.empty "''/bot''" "''/bot''" home]
  by (simp add: opened_fields run_def started_bot_def [symmetric] started_bot_fields)

subsection \<open>C7: the liveness reply and the bus\<close>




subsection \<open>C8: log rotation\<close>

text \<open>
  Claim C8. Let the logs directory and \<open>latest.log\<close> in it exist when \<open>start\<close>
  runs. Then \<open>latest.log\<close> is renamed to a name that no file had: the name with the
  time stamp alone if that is free, otherwise the name with the time stamp and the least
  count from 1 upwards whose name is free. The renamed file has the content of
  \<open>latest.log\<close>, and every other file is as before. When the run then writes a new
  \<open>latest.log\<close> and \<open>start\<close> runs again for the same directory, the second rotation
  picks a name different from the first; afterwards both files are there, each with the
  content of its own run, and every other file is still as it was before the first
  start.
\<close>

theorem log_rotation:
  fixes b :: bot and args1 args2 :: "jsval list" and cwd written :: string
    and now1 now2 :: "nat \<Rightarrow> string" and pathArg1 pathArg2 :: "string option"
  defines "dir \<equiv> to_string (if 1 < length args1 then args1 ! 1 else Undefined) @ ''/logs''"
  defines "latest \<equiv> dir @ ''/latest.log''"
  defines "b1 \<equiv> start cwd now1 pathArg1 (Inr args1) b"
  defines "t1 \<equiv> find_name (files b) dir now1 0 (plain dir now1)"
  defines "b1' \<equiv> b1\<lparr>files := fmupd latest (File written) (files b1)\<rparr>"
  defines "b2 \<equiv> start cwd now2 pathArg2 (Inr args2) b1'"
  defines "t2 \<equiv> find_name (files b1') dir now2 0 (plain dir now2)"
  assumes same_dir: "(if 1 < length args2 then args2 ! 1 else Undefined)
                       = (if 1 < length args1 then args1 ! 1 else Undefined)"
    and dir_exists: "existsSync (files b) dir"
    and latest_exists: "existsSync (files b) latest"
  shows "\<not> existsSync (files b) t1
       \<and> fmlookup (files b1) t1 = fmlookup (files b) latest
       \<and> fmlookup (files b1) latest = None
       \<and> (\<forall>q. q \<noteq> latest \<and> q \<noteq> t1 \<longrightarrow> fmlookup (files b1) q = fmlookup (files b) q)
       \<and> (t1 = plain dir now1
           \<or> (\<exists>k>0. t1 = suffixed dir now1 k \<and> existsSync (files b) (plain dir now1)
                 \<and> (\<forall>j. 0 < j \<and> j < k \<longrightarrow> existsSync (files b) (suffixed dir now1 j))))
       \<and> \<not> existsSync (files b1') t2
       \<and> t1 \<noteq> t2
       \<and> fmlookup (files b2) t1 = fmlookup (files b) latest
       \<and> fmlookup (files b2) t2 = Some (File written)
       \<and> fmlookup (files b2) latest = None
       \<and> (\<forall>q. q \<noteq> latest \<and> q \<noteq> t1 \<and> q \<noteq> t2
             \<longrightarrow> fmlookup (files b2) q = fmlookup (files b) q)"
proof -
  have f1: "files b1 = rotate now1 dir (files b)"
    unfolding b1_def dir_def by (rule start_files) (use dir_exists in \<open>simp add: dir_def\<close>)
  have fresh1: "\<not> existsSync (files b) t1"
    unfolding t1_def by (rule find_name_fresh)
  have moved1: "fmlookup (files b1) t1 = fmlookup (files b) latest"
    unfolding f1 t1_def latest_def
    by (rule rotate_effect(1)) (use latest_exists in \<open>simp add: latest_def\<close>)
  have gone1: "fmlookup (files b1) latest = None"
    unfolding f1 latest_def
    by (rule rotate_effect(2)) (use latest_exists in \<open>simp add: latest_def\<close>)
  have rest1: "fmlookup (files b1) q = fmlookup (files b) q" if "q \<noteq> latest" "q \<noteq> t1" for q
    unfolding f1
    by (rule rotate_effect(3)) (use latest_exists that in \<open>simp_all add: latest_def t1_def\<close>)
  have form1: "t1 = plain dir now1
           \<or> (\<exists>k>0. t1 = suffixed dir now1 k \<and> existsSync (files b) (plain dir now1)
                 \<and> (\<forall>j. 0 < j \<and> j < k \<longrightarrow> existsSync (files b) (suffixed dir now1 j)))"
    using find_name_form [of "files b" dir now1 0 "plain dir now1"] unfolding t1_def by blast
  have ne1: "t1 \<noteq> latest" using fresh1 latest_exists by auto
  have there1: "existsSync (files b) latest \<Longrightarrow> existsSync (files b1') t1"
    using moved1 ne1 by (simp add: b1'_def existsSync_def)
  have f1': "files b1' = fmupd latest (File written) (files b1)"
    by (simp add: b1'_def)
  have dir1': "existsSync (files b1') dir"
    unfolding f1' f1 using rotate_keeps_dir [OF dir_exists, of now1]
    by (simp add: existsSync_def)
  have latest1': "existsSync (files b1') latest"
    unfolding f1' by (simp add: existsSync_def)
  have f2: "files b2 = rotate now2 dir (files b1')"
    unfolding b2_def dir_def same_dir [symmetric]
    by (rule start_files) (use dir1' same_dir in \<open>simp add: dir_def\<close>)
  have fresh2: "\<not> existsSync (files b1') t2"
    unfolding t2_def by (rule find_name_fresh)
  have ne2: "t2 \<noteq> latest" using fresh2 latest1' by auto
  have distinct: "t1 \<noteq> t2" using there1 [OF latest_exists] fresh2 by auto
  have moved2: "fmlookup (files b2) t2 = Some (File written)"
  proof -
    have "fmlookup (files b2) t2 = fmlookup (files b1') latest"
      unfolding f2 t2_def latest_def
      by (rule rotate_effect(1)) (use latest1' in \<open>simp add: latest_def\<close>)
    then show ?thesis by (simp add: f1')
  qed
  have gone2: "fmlookup (files b2) latest = None"
    unfolding f2 latest_def
    by (rule rotate_effect(2)) (use latest1' in \<open>simp add: latest_def\<close>)
  have rest2: "fmlookup (files b2) q = fmlookup (files b1) q" if "q \<noteq> latest" "q \<noteq> t2" for q
  proof -
    have "fmlookup (files b2) q = fmlookup (files b1') q"
      unfolding f2
      by (rule rotate_effect(3)) (use latest1' that in \<open>simp_all add: latest_def t2_def\<close>)
    then show ?thesis using that(1) by (simp add: f1')
  qed
  have kept1: "fmlookup (files b2) t1 = fmlookup (files b) latest"
    using rest2 [OF ne1 distinct] moved1 by simp
  have rest: "\<forall>q. q \<noteq> latest \<and> q \<noteq> t1 \<and> q \<noteq> t2
             \<longrightarrow> fmlookup (files b2) q = fmlookup (files b) q"
    using rest1 rest2 by simp
  have rest1': "\<forall>q. q \<noteq> latest \<and> q \<noteq> t1 \<longrightarrow> fmlookup (files b1) q = fmlookup (files b) q"
    using rest1 by simp
  from fresh1 moved1 gone1 rest1' form1 fresh2 distinct kept1 moved2 gone2 rest
  show ?thesis by (intro conjI)
qed

text \<open>
  The theorem on two starts within the same second: the second log gets the suffix 1.
\<close>

theorem log_rotation_witness:
  "existsSync (files (constructor ''/bot'' old_logs)) ''/bot/logs''
   \<and> existsSync (files (constructor ''/bot'' old_logs)) ''/bot/logs/latest.log''
   \<and> fmlookup
        (files (start ''/bot'' clock None (Inr [Str ''/bot'', Str ''/bot''])
          ((start ''/bot'' clock None (Inr [Str ''/bot'', Str ''/bot''])
             (constructor ''/bot'' old_logs))
           \<lparr>files := fmupd ''/bot/logs/latest.log'' (File ''second run'') rotated_once\<rparr>)))
        ''/bot/logs/2024-05-01-12-00-00.log'' = Some (File ''first run'')
   \<and> fmlookup
        (files (start ''/bot'' clock None (Inr [Str ''/bot'', Str ''/bot''])
          ((start ''/bot'' clock None (Inr [Str ''/bot'', Str ''/bot''])
             (constructor ''/bot'' old_logs))
           \<lparr>files := fmupd ''/bot/logs/latest.log'' (File ''second run'') rotated_once\<rparr>)))
        ''/bot/logs/2024-05-01-12-00-00-1.log'' = Some (File ''second run'')
   \<and> fmlookup
        (files (start ''/bot'' clock None (Inr [Str ''/bot'', Str ''/bot''])
          ((start ''/bot'' clock None (Inr [Str ''/bot'', Str ''/bot''])
             (constructor ''/bot'' old_logs))
           \<lparr>files := fmupd ''/bot/logs/latest.log'' (File ''second run'') rotated_once\<rparr>)))
        ''/bot/logs/latest.log'' = None"
  using log_rotation [where b = "constructor ''/bot'' old_logs"
      and ?args1.0 = "[Str ''/bot'', Str ''/bot'']" and ?args2.0 = "[Str ''/bot'', Str ''/bot'']"
      and cwd = "''/bot''" and written = "''second run''" and ?now1.0 = clock and ?now2.0 = clock
      and ?pathArg1.0 = None and ?pathArg2.0 = None]
  by (simp add: first_start_files first_name second_name old_logs_lookup constructor_files)

subsection \<open>C9: frames with missing fields\<close>

text \<open>
  Claim C9, as amended. With its logger in place the handler returns normally on every
  frame. The empty frame is logged at debug severity and nothing else happens; the same
  holds for a decoded object whose discriminator is neither \<open>5\<close> nor \<open>50\<close>, a missing
  one included. For the discriminator \<open>5\<close>, when reading \<open>data\<close>, its
  \<open>user_info\<close> and the \<open>user_base_info\<close> of that succeeds, the value read (which is
  \<open>undefined\<close> when the last field is missing) and the message as decoded are posted on
  \<open>user-message\<close>; when a read throws, because \<open>data\<close> or \<open>user_info\<close> is missing
  or null, the exception is logged at error severity and nothing is posted. For the
  discriminator \<open>50\<close> the same holds with \<open>sender_info\<close> and \<open>command-message\<close>.
\<close>

theorem partial_frames_are_classified:
  assumes "logger b \<noteq> None"
  shows "(\<exists>b'. onWebsocketMsg parse b msg = Inr b')
       \<and> onWebsocketMsg parse b [] = Inr (emit (Log Debug (Text [])) b)
       \<and> (startsWith msg ''{'' \<and> endsWith msg ''}'' \<and> parse msg = Some data
            \<and> getprop data ''type'' = Inr ty \<and> ty \<noteq> JStr ''5'' \<and> ty \<noteq> JStr ''50''
          \<longrightarrow> onWebsocketMsg parse b msg = Inr (emit (Log Debug (Text msg)) b))
       \<and> (startsWith msg ''{'' \<and> endsWith msg ''}'' \<and> parse msg = Some data
            \<and> getprop data ''type'' = Inr (JStr ''5'') \<and> getprop data ''data'' = Inr payload
            \<and> getprop payload ''user_info'' = Inr user_info
            \<and> getprop user_info ''user_base_info'' = Inr user
          \<longrightarrow> onWebsocketMsg parse b msg
                = Inr (emit (Post ''user-message'' [This, Value user, UserImMessageImpl payload])
                        (emit (Log Debug (Text msg)) b)))
       \<and> (startsWith msg ''{'' \<and> endsWith msg ''}'' \<and> parse msg = Some data
            \<and> getprop data ''type'' = Inr (JStr ''5'') \<and> getprop data ''data'' = Inr payload
            \<and> (getprop payload ''user_info'' = Inl e
                \<or> getprop payload ''user_info'' = Inr user_info
                  \<and> getprop user_info ''user_base_info'' = Inl e)
          \<longrightarrow> onWebsocketMsg parse b msg
                = Inr (emit (Log Error (Thrown e)) (emit (Log Debug (Text msg)) b)))
       \<and> (startsWith msg ''{'' \<and> endsWith msg ''}'' \<and> parse msg = Some data
            \<and> getprop data ''type'' = Inr (JStr ''50'') \<and> getprop data ''data'' = Inr payload
            \<and> getprop payload ''sender_info'' = Inr user
          \<longrightarrow> onWebsocketMsg parse b msg
                = Inr (emit (Post ''command-message'' [This, Value user, Value payload])
                        (emit (Log Debug (Text msg)) b)))
       \<and> (startsWith msg ''{'' \<and> endsWith msg ''}'' \<and> parse msg = Some data
            \<and> getprop data ''type'' = Inr (JStr ''50'') \<and> getprop data ''data'' = Inr payload
            \<and> getprop payload ''sender_info'' = Inl e
          \<longrightarrow> onWebsocketMsg parse b msg
                = Inr (emit (Log Error (Thrown e)) (emit (Log Debug (Text msg)) b)))"
proof (intro conjI impI)
  show "\<exists>b'. onWebsocketMsg parse b msg = Inr b'"
    using assms by (rule onWebsocketMsg_returns)
next
  show "onWebsocketMsg parse b [] = Inr (emit (Log Debug (Text [])) b)"
    using assms by (auto simp: onWebsocketMsg_def Let_def startsWith_def)
qed (auto simp: onWebsocketMsg_shaped [OF assms] try_block_def)

text \<open>
  The theorem on the empty frame, on an empty object, on a user message whose
  \<open>user_info\<close> is empty, and on one that has no \<open>user_info\<close>.
\<close>

theorem partial_frames_are_classified_witness:
  \<open>logger (on_open started_bot) \<noteq> None
   \<and> onWebsocketMsg decode (on_open started_bot) []
        = Inr (emit (Log Debug (Text [])) (on_open started_bot))
   \<and> decode ''{}'' = Some (JObj []) \<and> getprop (JObj []) ''type'' = Inr JUndefined
   \<and> onWebsocketMsg decode (on_open started_bot) ''{}''
        = Inr (emit (Log Debug (Text ''{}'')) (on_open started_bot))
   \<and> onWebsocketMsg decode (on_open started_bot)
          ''{"type":"5","data":{"msg":"hi","user_info":{}}}''
        = Inr (emit (Post ''user-message''
                 [This, Value JUndefined,
                  UserImMessageImpl (JObj [(''msg'', JStr ''hi''), (''user_info'', JObj [])])])
               (emit (Log Debug (Text ''{"type":"5","data":{"msg":"hi","user_info":{}}}''))
                 (on_open started_bot)))
   \<and> getprop (JObj []) ''user_info'' = Inr JUndefined
   \<and> getprop JUndefined ''user_base_info'' = Inl TypeError
   \<and> onWebsocketMsg decode (on_open started_bot) ''{"type":"5","data":{}}''
        = Inr (emit (Log Error (Thrown TypeError))
               (emit (Log Debug (Text ''{"type":"5","data":{}}'')) (on_open started_bot)))\<close>
  using
    partial_frames_are_classified [of "on_open started_bot" decode \<open>''{}''\<close>
      "JObj []" JUndefined]
    partial_frames_are_classified [of "on_open started_bot" decode
      \<open>''{"type":"5","data":{"msg":"hi","user_info":{}}}''\<close>
      \<open>JObj [(''type'', JStr ''5''),
               (''data'', JObj [(''msg'', JStr ''hi''), (''user_info'', JObj [])])]\<close>
      "JStr ''5''"
      \<open>JObj [(''msg'', JStr ''hi''), (''user_info'', JObj [])]\<close> "JObj []" JUndefined]
    partial_frames_are_classified [of "on_open started_bot" decode
      \<open>''{"type":"5","data":{}}''\<close>
      \<open>JObj [(''type'', JStr ''5''), (''data'', JObj [])]\<close>
      "JStr ''5''" "JObj []" JUndefined undefined TypeError]
  by (simp add: opened_fields startsWith_def endsWith_def decode_def)

text \<open>
  Claim C9 as stated fails: a frame of type \<open>5\<close> whose data has no \<open>user_info\<close>
  decodes, and nothing of it reaches a downstream consumer; the only post is the one of the
  raw frame on \<open>websocket-message\<close>.
\<close>

theorem missing_sender_is_dropped_counterexample:
  \<open>decode ''{"type":"5","data":{}}'' = Some (JObj [(''type'', JStr ''5''), (''data'', JObj [])])
   \<and> onWebsocketMsg decode (on_open started_bot) ''{"type":"5","data":{}}''
        = Inr ((on_open started_bot)\<lparr>trace := trace (on_open started_bot)
             @ [Log Debug (Text ''{"type":"5","data":{}}''), Log Error (Thrown TypeError)]\<rparr>)
   \<and> posts (step decode ''/bot'' (WsMessage ''{"type":"5","data":{}}'') (on_open started_bot))
        = posts (on_open started_bot)
            @ [(''websocket-message'', [This, RawData ''{"type":"5","data":{}}''])]\<close>
  by (simp add: decode_def opened_fields deliver_def ws_on_message_def dispatch_def
      run_listener_def onWebsocketMsg_def try_block_def Let_def emit_def startsWith_def
      endsWith_def posts_def)

subsection \<open>C10: the open flag\<close>

text \<open>
  Claim C10. The open signal sets the open flag and no operation clears it: after any
  sequence of operations in which the open signal occurs the flag is set. So on an
  instance whose flag is set, after any further sequence of operations, a call of
  \<open>stop\<close> whose first post resolves issues a close on the transport, also when the
  sequence contains earlier calls of \<open>stop\<close> or the termination after a lost heartbeat.
\<close>

theorem open_flag_never_cleared:
  "wsOpened (step parse cwd WsOpen b)
   \<and> (wsOpened b \<longrightarrow> wsOpened (step parse cwd e b))
   \<and> (WsOpen \<in> set evs \<longrightarrow> wsOpened (run parse cwd evs b))
   \<and> (wsOpened b \<longrightarrow>
        trace (stop (Inr r) (run parse cwd evs b))
          = trace (run parse cwd evs b)
              @ [Post ''before-start'' [This], Close, Post ''after-stop'' [This]])"
proof (intro conjI impI)
  assume "WsOpen \<in> set evs"
  then show "wsOpened (run parse cwd evs b)" by (rule run_opened)
next
  show "wsOpened (step parse cwd WsOpen b)" by (simp add: on_open_def ping_keeps)
next
  assume "wsOpened b"
  then show "wsOpened (step parse cwd e b)" by (rule step_wsOpened)
next
  assume "wsOpened b"
  then have "wsOpened (run parse cwd evs b)" by (rule run_wsOpened)
  then show "trace (stop (Inr r) (run parse cwd evs b))
          = trace (run parse cwd evs b)
              @ [Post ''before-start'' [This], Close, Post ''after-stop'' [This]]"
    by (simp add: stop_trace)
qed

text \<open>
  The theorem on the started and opened bot: six timeouts without a reply terminate the
  transport, a first \<open>stop\<close> closes it, and a second \<open>stop\<close> closes it again.
\<close>

theorem open_flag_never_cleared_witness:
  "wsOpened (step Map.empty ''/bot'' WsOpen started_bot)
   \<and> wsOpened (on_open started_bot)
   \<and> WsOpen \<in> set (WsOpen # lost_then_stopped)
   \<and> wsOpened (run Map.empty ''/bot'' (WsOpen # lost_then_stopped) started_bot)
   \<and> wsOpened (step Map.empty ''/bot'' (Stop (Inr [])) (on_open started_bot))
   \<and> trace (stop (Inr []) (run Map.empty ''/bot'' lost_then_stopped (on_open started_bot)))
       = [Post ''before-start'' [This, PathArg ''/bot''],
          Log Info (Text ''HeyBox Bot starting...''), Post ''after-start'' [This],
          Send ''PING'', Send ''PING'', Send ''PING'', Send ''PING'', Send ''PING'', Send ''PING'',
          Log Error (Text ''WebSocket connection lost, reconnecting...''), Terminate,
          Post ''before-start'' [This], Close, Post ''after-stop'' [This],
          Post ''before-start'' [This], Close, Post ''after-stop'' [This]]"
  using open_flag_never_cleared [of Map.empty "''/bot''" started_bot undefined
      "WsOpen # lost_then_stopped"]
    open_flag_never_cleared [of Map.empty "''/bot''" "on_open started_bot" "Stop (Inr [])"
      lost_then_stopped "[]"]
  by (simp add: opened_fields lost_then_stopped_trace)

end
